theory Spec2Isabelle
  imports Main "HOL-Library.Sublist"
begin

section \<open>Strings, arrays and regular expressions of the host language\<close>

text \<open>
  Strings are lists of code units below 256, so the two line separators beyond that range
  do not occur. An absent value (\<^verbatim>\<open>undefined\<close>) of a field is \<open>None\<close>; the optional
  chaining \<^verbatim>\<open>a?.b\<close> is \<open>Option.bind\<close>.
\<close>

definition startsWith :: "string \<Rightarrow> string \<Rightarrow> bool" where
  "startsWith s p = (take (length p) s = p)"

primrec array_includes :: "'a list \<Rightarrow> 'a \<Rightarrow> bool" where
  "array_includes [] x = False"
| "array_includes (y # ys) x = (y = x \<or> array_includes ys x)"

text \<open>\<^verbatim>\<open>s.split(' ')\<close>: the empty string gives the one-element list holding the empty string.\<close>

fun split_on :: "char \<Rightarrow> string \<Rightarrow> string list" where
  "split_on sep [] = [[]]"
| "split_on sep (c # cs) =
     (if c = sep then [] # split_on sep cs
      else (case split_on sep cs of [] \<Rightarrow> [[c]] | w # ws \<Rightarrow> (c # w) # ws))"

subsection \<open>The fragment of regular expressions the bot uses\<close>

text \<open>
  A pattern anchored at both ends (\<^verbatim>\<open>^ ... $\<close>, no flags) is a sequence of character
  classes, each under a greedy quantifier, some of them inside a capturing group.
  Matching backtracks: every quantifier tries its longest run first.
\<close>

datatype cls = Dot | Space | Word | Lit char

datatype quant = Once | Star | Plus | Opt

datatype node = Atom cls quant | Group cls quant

definition line_terminators :: "char list" where
  "line_terminators = [CHR 0x0A, CHR 0x0D]"

definition white_space :: "char list" where
  "white_space = [CHR 0x09, CHR 0x0A, CHR 0x0B, CHR 0x0C, CHR 0x0D, CHR 0x20, CHR 0xA0]"

definition word_chars :: "char list" where
  "word_chars = ''abcdefghijklmnopqrstuvwxyz'' @ ''ABCDEFGHIJKLMNOPQRSTUVWXYZ'' @ ''0123456789_''"

fun cls_matches :: "cls \<Rightarrow> char \<Rightarrow> bool" where
  "cls_matches Dot c = (\<not> array_includes line_terminators c)"
| "cls_matches Space c = array_includes white_space c"
| "cls_matches Word c = array_includes word_chars c"
| "cls_matches (Lit a) c = (c = a)"

text \<open>Every way to cut a run of class characters off the front, the longest run first.\<close>

fun splits :: "cls \<Rightarrow> string \<Rightarrow> (string \<times> string) list" where
  "splits k [] = [([], [])]"
| "splits k (c # cs) =
     (if cls_matches k c
      then map (\<lambda>(t, r). (c # t, r)) (splits k cs) @ [([], c # cs)]
      else [([], c # cs)])"

fun quant_allows :: "quant \<Rightarrow> string \<Rightarrow> bool" where
  "quant_allows Once t = (length t = 1)"
| "quant_allows Star t = True"
| "quant_allows Plus t = (t \<noteq> [])"
| "quant_allows Opt t = (length t \<le> 1)"

fun node_cls :: "node \<Rightarrow> cls" where
  "node_cls (Atom k q) = k"
| "node_cls (Group k q) = k"

fun node_quant :: "node \<Rightarrow> quant" where
  "node_quant (Atom k q) = q"
| "node_quant (Group k q) = q"

fun captures :: "node \<Rightarrow> string \<Rightarrow> string list \<Rightarrow> string list" where
  "captures (Atom k q) t caps = caps"
| "captures (Group k q) t caps = t # caps"

definition candidates :: "node \<Rightarrow> string \<Rightarrow> (string \<times> string) list" where
  "candidates nd s = filter (\<lambda>(t, r). quant_allows (node_quant nd) t) (splits (node_cls nd) s)"

fun first_some :: "'a option list \<Rightarrow> 'a option" where
  "first_some [] = None"
| "first_some (None # xs) = first_some xs"
| "first_some (Some x # xs) = Some x"

text \<open>The captured groups of the first successful way to match the whole string.\<close>

fun matcher :: "node list \<Rightarrow> string \<Rightarrow> string list option" where
  "matcher [] s = (if s = [] then Some [] else None)"
| "matcher (nd # nds) s =
     first_some (map (\<lambda>(t, r). map_option (captures nd t) (matcher nds r)) (candidates nd s))"

text \<open>\<^verbatim>\<open>s.match(re)\<close> for an anchored pattern: the whole string, then the groups.\<close>

definition match_anchored :: "node list \<Rightarrow> string \<Rightarrow> string list option" where
  "match_anchored re s = map_option (\<lambda>caps. s # caps) (matcher re s)"

section \<open>The webhook context\<close>

record user =
  login :: "string option"

record label =
  label_name :: string

record issue =
  number :: "int option"
  issue_user :: "user option"
  labels :: "label list option"

record comment =
  comment_user :: "user option"
  body :: "string option"

record repository =
  repo_owner :: "user option"
  repo_name :: "string option"

record payload =
  pull_request :: "issue option"
  issue :: "issue option"
  comment :: "comment option"
  repository :: "repository option"

datatype api_call =
    AddAssignees "string option" "string option" "int option" "string list"
  | RemoveAssignees "string option" "string option" "int option" "string list"
  | RemoveLabel "string option" "string option" "int option" string
  | AddLabels "string option" "string option" "int option" "string list"

text \<open>
  \<open>github\<close> is the platform client: given the calls issued so far and a new call, it says
  whether the call's promise resolves (\<open>True\<close>) or rejects.
\<close>

record probot_context =
  name :: string
  payload :: "payload option"
  github :: "api_call list \<Rightarrow> api_call \<Rightarrow> bool"

section \<open>The bot\<close>

datatype severity = LogError | LogInfo

datatype log_fields =
    CtxFields
  | StrategyFields string
  | DispatchFields "string list option" "string list" string "string option"
      "string list option" "int option" "string option"

type_synonym log_record = "severity \<times> log_fields \<times> string"

datatype error = TypeError | PlatformError api_call

datatype outcome = Returned | Threw error

definition allowed_commands :: "string list" where
  "allowed_commands = [''ciflow'']"

definition bot_app_name :: string where
  "bot_app_name = ''pytorchbot''"

definition bot_assignee :: string where
  "bot_assignee = ''pytorchbot''"

definition event_issue_comment :: string where
  "event_issue_comment = ''issue_comment''"

definition event_pull_request :: string where
  "event_pull_request = ''pull_request''"

definition pr_label_prefix :: string where
  "pr_label_prefix = ''ciflow/''"

definition rollout_users :: "string list" where
  "rollout_users = [''zhouzhuojie'']"

definition strategy_add_default_labels :: string where
  "strategy_add_default_labels = ''strategy_add_default_labels''"

text \<open>
  The instance fields, and the two traces of what the bot did to the outside:
  the records written to \<^verbatim>\<open>ctx.log\<close> and the calls issued on \<^verbatim>\<open>ctx.github.issues\<close>,
  both in order.
\<close>

record bot =
  ctx :: probot_context
  command :: string
  command_args :: "string list"
  comment_author :: "string option"
  comment_body :: "string option"
  dispatch_labels :: "string list option"
  dispatch_strategies :: "string list"
  event :: string
  owner :: "string option"
  pr_author :: "string option"
  pr_labels :: "string list option"
  pr_number :: "int option"
  repo :: "string option"
  log_records :: "log_record list"
  api_calls :: "api_call list"

definition CIFlowBot :: "probot_context \<Rightarrow> bot" where
  "CIFlowBot c =
     \<lparr> ctx = c, command = [], command_args = [], comment_author = Some [],
       comment_body = Some [], dispatch_labels = Some [],
       dispatch_strategies = [strategy_add_default_labels], event = [], owner = Some [],
       pr_author = Some [], pr_labels = Some [], pr_number = Some 0, repo = Some [],
       log_records = [], api_calls = [] \<rparr>"

definition comment_re :: "node list" where
  "comment_re =
     Atom Dot Star # map (\<lambda>c. Atom (Lit c) Once) (''@'' @ bot_app_name)
       @ [Atom Space Plus, Group Word Plus, Atom Space Opt, Group Dot Star]"

definition parseComment :: "bot \<Rightarrow> bot" where
  "parseComment b =
     (case Option.bind (comment_body b) (match_anchored comment_re) of
        None \<Rightarrow> b
      | Some found \<Rightarrow>
          (let b1 = (if length found \<ge> 2 then b\<lparr>command := found ! 1\<rparr> else b)
           in if length found = 3 then b1\<lparr>command_args := split_on CHR '' '' (found ! 2)\<rparr>
              else b1))"

definition valid :: "bot \<Rightarrow> bool \<times> bot" where
  "valid b =
     (if event b \<noteq> event_pull_request \<and> event b \<noteq> event_issue_comment
      then (False, b\<lparr>log_records := log_records b @ [(LogError, CtxFields, ''Unknown webhook event'')]\<rparr>)
      else if event b = event_issue_comment
      then (if comment_author b = Some []
            then (False, b\<lparr>log_records := log_records b @ [(LogError, CtxFields, ''Empty comment author'')]\<rparr>)
            else if comment_author b \<noteq> pr_author b then (False, b)
            else if \<not> array_includes allowed_commands (command b) then (False, b)
            else (True, b))
      else (True, b))"

definition rollout :: "bot \<Rightarrow> bool" where
  "rollout b = (if array_includes (map Some rollout_users) (pr_author b) then True else False)"

text \<open>
  Reading \<^verbatim>\<open>.length\<close> of an absent array and spreading an absent array both throw;
  the assignment before the spread has happened by then.
\<close>

definition dispatch_strategy_func :: "string \<Rightarrow> bot \<Rightarrow> outcome \<times> bot" where
  "dispatch_strategy_func strategyName b =
     (if strategyName = strategy_add_default_labels
      then (case dispatch_labels b of
              None \<Rightarrow> (Threw TypeError, b)
            | Some dl \<Rightarrow>
                (let b1 = (if length dl = 0 then b\<lparr>dispatch_labels := pr_labels b\<rparr> else b)
                 in case dispatch_labels b1 of
                      None \<Rightarrow> (Threw TypeError, b1)
                    | Some dl1 \<Rightarrow> (Returned, b1\<lparr>dispatch_labels := Some (''ciflow/default'' # dl1)\<rparr>)))
      else (Returned,
            b\<lparr>log_records := log_records b
                 @ [(LogError, StrategyFields strategyName, ''Unknown dispatch strategy'')]\<rparr>))"

text \<open>\<^verbatim>\<open>this.dispatch_strategies.map(...)\<close>: one call per key, in order, stopping at a throw.\<close>

fun map_strategies :: "string list \<Rightarrow> bot \<Rightarrow> outcome \<times> bot" where
  "map_strategies [] b = (Returned, b)"
| "map_strategies (k # ks) b =
     (case dispatch_strategy_func k b of
        (Returned, b1) \<Rightarrow> map_strategies ks b1
      | (Threw e, b1) \<Rightarrow> (Threw e, b1))"

text \<open>An awaited platform call: it is issued, then its promise resolves or rejects.\<close>

definition await_call :: "api_call \<Rightarrow> bot \<Rightarrow> outcome \<times> bot" where
  "await_call c b =
     (if github (ctx b) (api_calls b) c
      then (Returned, b\<lparr>api_calls := api_calls b @ [c]\<rparr>)
      else (Threw (PlatformError c), b\<lparr>api_calls := api_calls b @ [c]\<rparr>))"

definition signal_github :: "bot \<Rightarrow> outcome \<times> bot" where
  "signal_github b =
     (case await_call (AddAssignees (owner b) (repo b) (pr_number b) [bot_assignee]) b of
        (Threw e, b1) \<Rightarrow> (Threw e, b1)
      | (Returned, b1) \<Rightarrow>
          await_call (RemoveAssignees (owner b1) (repo b1) (pr_number b1) [bot_assignee]) b1)"

text \<open>
  \<^verbatim>\<open>this.ctx.payload.repository.owner.login\<close> and \<^verbatim>\<open>this.ctx.payload.repository.name\<close>,
  without optional chaining: an absent payload, repository or owner throws.
\<close>

definition payload_repository :: "bot \<Rightarrow> error + (string option \<times> string option)" where
  "payload_repository b =
     (case payload (ctx b) of
        None \<Rightarrow> Inl TypeError
      | Some p \<Rightarrow>
          (case repository p of
             None \<Rightarrow> Inl TypeError
           | Some r \<Rightarrow>
               (case repo_owner r of
                  None \<Rightarrow> Inl TypeError
                | Some u \<Rightarrow> Inr (login u, repo_name r))))"

fun removeLabel_each :: "string list \<Rightarrow> bot \<Rightarrow> outcome \<times> bot" where
  "removeLabel_each [] b = (Returned, b)"
| "removeLabel_each (l # ls) b =
     (case payload_repository b of
        Inl e \<Rightarrow> (Threw e, b)
      | Inr (ow, rp) \<Rightarrow>
          (case await_call (RemoveLabel ow rp (pr_number b) l) b of
             (Threw e, b1) \<Rightarrow> (Threw e, b1)
           | (Returned, b1) \<Rightarrow> removeLabel_each ls b1))"

definition prefixed_labels :: "string list \<Rightarrow> string list" where
  "prefixed_labels dl = filter (\<lambda>l. startsWith l pr_label_prefix) dl"

definition labelsToDelete :: "string list \<Rightarrow> string list \<Rightarrow> string list" where
  "labelsToDelete pl ls = filter (\<lambda>l. \<not> array_includes ls l) pl"

definition labelsToAdd :: "string list \<Rightarrow> string list \<Rightarrow> string list" where
  "labelsToAdd pl ls = filter (\<lambda>l. \<not> array_includes pl l) ls"

definition setLabels :: "bot \<Rightarrow> outcome \<times> bot" where
  "setLabels b =
     (case dispatch_labels b of
        None \<Rightarrow> (Threw TypeError, b)
      | Some dl \<Rightarrow>
          (case pr_labels b of
             None \<Rightarrow> (Threw TypeError, b)
           | Some pl \<Rightarrow>
               (case removeLabel_each (labelsToDelete pl (prefixed_labels dl)) b of
                  (Threw e, b1) \<Rightarrow> (Threw e, b1)
                | (Returned, b1) \<Rightarrow>
                    (case payload_repository b1 of
                       Inl e \<Rightarrow> (Threw e, b1)
                     | Inr (ow, rp) \<Rightarrow>
                         (case await_call
                                 (AddLabels ow rp (pr_number b1)
                                    (labelsToAdd pl (prefixed_labels dl))) b1 of
                            (Threw e, b2) \<Rightarrow> (Threw e, b2)
                          | (Returned, b2) \<Rightarrow>
                              (Returned, b2\<lparr>dispatch_labels := Some (prefixed_labels dl)\<rparr>))))))"

definition state_fields :: "bot \<Rightarrow> log_fields" where
  "state_fields b =
     DispatchFields (dispatch_labels b) (dispatch_strategies b) (event b) (owner b)
       (pr_labels b) (pr_number b) (repo b)"

definition dispatch :: "bot \<Rightarrow> outcome \<times> bot" where
  "dispatch b =
     (case map_strategies (dispatch_strategies b) b of
        (Threw e, b1) \<Rightarrow> (Threw e, b1)
      | (Returned, b1) \<Rightarrow>
          (case setLabels b1 of
             (Threw e, b2) \<Rightarrow> (Threw e, b2)
           | (Returned, b2) \<Rightarrow>
               (case signal_github b2 of
                  (Threw e, b3) \<Rightarrow> (Threw e, b3)
                | (Returned, b3) \<Rightarrow>
                    (Returned,
                     b3\<lparr>log_records := log_records b3
                          @ [(LogInfo, state_fields b3, ''ciflow dispatch success!'')]\<rparr>))))"

text \<open>\<^verbatim>\<open>x || y\<close> on objects: \<open>y\<close> when \<open>x\<close> is absent.\<close>

definition or_else :: "'a option \<Rightarrow> 'a option \<Rightarrow> 'a option" where
  "or_else x y = (case x of None \<Rightarrow> y | Some v \<Rightarrow> Some v)"

definition setContext :: "bot \<Rightarrow> bot" where
  "setContext b =
     (let p = payload (ctx b);
          pr = or_else (Option.bind p pull_request) (Option.bind p issue)
      in parseComment
           (b\<lparr>event := name (ctx b),
              pr_number := Option.bind pr number,
              pr_author := Option.bind (Option.bind pr issue_user) login,
              pr_labels :=
                map_option
                  (\<lambda>ls. map label_name
                          (filter (\<lambda>l. startsWith (label_name l) pr_label_prefix) ls))
                  (Option.bind pr labels),
              comment_author := Option.bind (Option.bind (Option.bind p comment) comment_user) login,
              comment_body := Option.bind (Option.bind p comment) body,
              owner := Option.bind (Option.bind (Option.bind p repository) repo_owner) login,
              repo := Option.bind (Option.bind p repository) repo_name\<rparr>))"

definition handler :: "bot \<Rightarrow> outcome \<times> bot" where
  "handler b =
     (let b1 = setContext b;
          b2 = b1\<lparr>log_records := log_records b1
                    @ [(LogInfo, state_fields b1, ''ciflow dispatch started!'')]\<rparr>
      in case valid b2 of
           (False, b3) \<Rightarrow> (Returned, b3)
         | (True, b3) \<Rightarrow> (if \<not> rollout b3 then (Returned, b3) else dispatch b3))"

text \<open>The handler that \<^verbatim>\<open>main\<close> subscribes to the five webhook events.\<close>

definition webhookHandler :: "probot_context \<Rightarrow> outcome \<times> bot" where
  "webhookHandler c = handler (CIFlowBot c)"

section \<open>Example deliveries\<close>

text \<open>
  Concrete webhook deliveries for the repository \<^verbatim>\<open>pytorch/pytorch\<close>, pull request 7:
  a pull-request event and a comment event, on a platform whose calls all resolve.
\<close>

abbreviation always_resolves :: "api_call list \<Rightarrow> api_call \<Rightarrow> bool" where
  "always_resolves \<equiv> (\<lambda>h c. True)"

abbreviation pytorch_repository :: repository where
  "pytorch_repository \<equiv> \<lparr> repo_owner = Some \<lparr> login = Some ''pytorch'' \<rparr>, repo_name = Some ''pytorch'' \<rparr>"

abbreviation pr_opened_event :: "string \<Rightarrow> string list \<Rightarrow> probot_context" where
  "pr_opened_event author ls \<equiv>
     \<lparr> name = ''pull_request'',
       payload = Some \<lparr> pull_request = Some \<lparr> number = Some 7,
                                             issue_user = Some \<lparr> login = Some author \<rparr>,
                                             labels = Some (map (\<lambda>n. \<lparr> label_name = n \<rparr>) ls) \<rparr>,
                       issue = None, comment = None,
                       repository = Some pytorch_repository \<rparr>,
       github = always_resolves \<rparr>"

abbreviation comment_event :: "string \<Rightarrow> string \<Rightarrow> string \<Rightarrow> string list \<Rightarrow> probot_context" where
  "comment_event author commenter text ls \<equiv>
     \<lparr> name = ''issue_comment'',
       payload = Some \<lparr> pull_request = None,
                       issue = Some \<lparr> number = Some 7,
                                      issue_user = Some \<lparr> login = Some author \<rparr>,
                                      labels = Some (map (\<lambda>n. \<lparr> label_name = n \<rparr>) ls) \<rparr>,
                       comment = Some \<lparr> comment_user = Some \<lparr> login = Some commenter \<rparr>,
                                        body = Some text \<rparr>,
                       repository = Some pytorch_repository \<rparr>,
       github = always_resolves \<rparr>"

section \<open>Library facts\<close>

lemma startsWith_iff_prefix: "startsWith s p \<longleftrightarrow> prefix p s"
  by (metis startsWith_def append_eq_conv_conj prefix_def)

lemma array_includes_iff: "array_includes xs x \<longleftrightarrow> x \<in> set xs"
  by (induction xs) auto

lemma splits_append: "(t, r) \<in> set (splits k s) \<Longrightarrow> s = t @ r"
  by (induction s arbitrary: t) (auto split: if_splits)

lemma candidates_append: "(t, r) \<in> set (candidates nd s) \<Longrightarrow> s = t @ r"
  by (auto simp add: candidates_def dest: splits_append)

lemma first_some_in: "first_some xs = Some v \<Longrightarrow> Some v \<in> set xs"
  by (induction xs rule: first_some.induct) auto

lemma matcher_Cons_Some:
  assumes "matcher (nd # nds) s = Some caps"
  shows "\<exists>t r caps'. (t, r) \<in> set (candidates nd s) \<and> s = t @ r \<and> matcher nds r = Some caps'"
proof -
  from assms
  have "first_some (map (\<lambda>(t, r). map_option (captures nd t) (matcher nds r)) (candidates nd s))
          = Some caps"
    by simp
  then have "Some caps \<in> set (map (\<lambda>(t, r). map_option (captures nd t) (matcher nds r)) (candidates nd s))"
    by (rule first_some_in)
  then obtain t r where tr: "(t, r) \<in> set (candidates nd s)"
    and m: "Some caps = map_option (captures nd t) (matcher nds r)"
    by auto
  from tr have "s = t @ r" by (rule candidates_append)
  moreover from m obtain caps' where "matcher nds r = Some caps'" by (cases "matcher nds r") auto
  ultimately show ?thesis using tr by blast
qed

lemma lit_once_split:
  assumes "(t, r) \<in> set (candidates (Atom (Lit a) Once) s)"
  shows "t = [a]"
proof (cases s)
  case Nil
  with assms show ?thesis by (simp add: candidates_def)
next
  case (Cons c cs)
  with assms have "length t = 1" by (simp add: candidates_def)
  then obtain x where t: "t = [x]" by (cases t) auto
  from assms have "(t, r) \<in> set (splits (Lit a) s)" by (simp add: candidates_def)
  with Cons t show ?thesis by (auto split: if_splits)
qed

lemma matcher_literal:
  "matcher (map (\<lambda>c. Atom (Lit c) Once) w @ rest) s = Some caps \<Longrightarrow> \<exists>r. s = w @ r"
proof (induction w arbitrary: s caps)
  case Nil
  then show ?case by simp
next
  case (Cons a w)
  from Cons.prems
  have "matcher (Atom (Lit a) Once # (map (\<lambda>c. Atom (Lit c) Once) w @ rest)) s = Some caps"
    by simp
  then obtain t r caps' where tr: "(t, r) \<in> set (candidates (Atom (Lit a) Once) s)"
    and s: "s = t @ r"
    and m: "matcher (map (\<lambda>c. Atom (Lit c) Once) w @ rest) r = Some caps'"
    using matcher_Cons_Some by blast
  from tr have t: "t = [a]" by (rule lit_once_split)
  from m obtain r' where "r = w @ r'" using Cons.IH by blast
  with s t show ?case by simp
qed

lemma comment_re_mention:
  assumes "matcher comment_re s = Some caps"
  shows "sublist (''@'' @ bot_app_name) s"
proof -
  let ?rest = "[Atom Space Plus, Group Word Plus, Atom Space Opt, Group Dot Star]"
  from assms obtain t r caps' where s: "s = t @ r"
    and m: "matcher (map (\<lambda>c. Atom (Lit c) Once) (''@'' @ bot_app_name) @ ?rest) r = Some caps'"
    unfolding comment_re_def using matcher_Cons_Some by blast
  from m obtain r' where "r = (''@'' @ bot_app_name) @ r'" using matcher_literal by blast
  with s show ?thesis unfolding sublist_def by blast
qed

lemma parseComment_no_mention:
  assumes "case comment_body b of None \<Rightarrow> True | Some s \<Rightarrow> \<not> sublist ''@pytorchbot'' s"
  shows "parseComment b = b"
proof (cases "comment_body b")
  case None
  then show ?thesis by (simp add: parseComment_def)
next
  case (Some s)
  with assms have "\<not> sublist (''@'' @ bot_app_name) s" by (simp add: bot_app_name_def)
  then have "matcher comment_re s = None" using comment_re_mention by (cases "matcher comment_re s") auto
  with Some show ?thesis by (simp add: parseComment_def match_anchored_def)
qed

lemma valid_fst_log: "fst (valid (b\<lparr>log_records := l\<rparr>)) = fst (valid b)"
  by (simp add: valid_def)

lemma valid_snd_fields:
  "api_calls (snd (valid b)) = api_calls b"
  "log_records (snd (valid b)) = log_records b @
     (if event b \<noteq> event_pull_request \<and> event b \<noteq> event_issue_comment
      then [(LogError, CtxFields, ''Unknown webhook event'')]
      else if event b = event_issue_comment \<and> comment_author b = Some []
      then [(LogError, CtxFields, ''Empty comment author'')] else [])"
  by (simp_all add: valid_def)

lemma setContext_fields:
  "event (setContext b) = name (ctx b)"
  "api_calls (setContext b) = api_calls b"
  "log_records (setContext b) = log_records b"
  "dispatch_labels (setContext b) = dispatch_labels b"
  "dispatch_strategies (setContext b) = dispatch_strategies b"
  "ctx (setContext b) = ctx b"
  "comment_body (setContext b) = Option.bind (Option.bind (payload (ctx b)) comment) body"
  by (simp_all add: setContext_def parseComment_def Let_def split: option.splits)

lemma handler_rejected:
  assumes "\<not> fst (valid (setContext b))"
  shows "handler b = (Returned, snd (valid ((setContext b)\<lparr>log_records := log_records (setContext b)
           @ [(LogInfo, state_fields (setContext b), ''ciflow dispatch started!'')]\<rparr>)))"
proof -
  let ?b2 = "(setContext b)\<lparr>log_records := log_records (setContext b)
           @ [(LogInfo, state_fields (setContext b), ''ciflow dispatch started!'')]\<rparr>"
  from assms have "\<not> fst (valid ?b2)" by (simp add: valid_fst_log)
  then obtain b3 where "valid ?b2 = (False, b3)" by (cases "valid ?b2") auto
  then show ?thesis by (simp add: handler_def Let_def)
qed

lemma match_hey:
  "match_anchored comment_re ''hey @pytorchbot ciflow default''
     = Some [''hey @pytorchbot ciflow default'', ''ciflow'', ''default'']"
  by code_simp

lemma match_no_mention: "match_anchored comment_re ''no mention here'' = None"
  by code_simp

lemma match_bare:
  "match_anchored comment_re ''@pytorchbot ciflow'' = Some [''@pytorchbot ciflow'', ''ciflow'', '''']"
  by code_simp

section \<open>Frames and invariants of the operations\<close>

lemma CIFlowBot_fields:
  "ctx (CIFlowBot c) = c" "command (CIFlowBot c) = []" "command_args (CIFlowBot c) = []"
  "dispatch_labels (CIFlowBot c) = Some []" "api_calls (CIFlowBot c) = []"
  "log_records (CIFlowBot c) = []"
  "dispatch_strategies (CIFlowBot c) = [strategy_add_default_labels]"
  by (simp_all add: CIFlowBot_def)

lemma setContext_eq_parseComment:
  "\<exists>b'. setContext b = parseComment b' \<and> command b' = command b \<and> command_args b' = command_args b
        \<and> comment_body b' = Option.bind (Option.bind (payload (ctx b)) comment) body"
  unfolding setContext_def Let_def
  by (rule exI, rule conjI, rule refl) simp

lemma rollout_iff: "rollout b \<longleftrightarrow> pr_author b \<in> Some ` set rollout_users"
  by (simp add: rollout_def array_includes_iff)

lemma await_call_frame:
  "snd (await_call k b) = b\<lparr>api_calls := api_calls b @ [k]\<rparr>"
  "fst (await_call k b) = Returned \<longleftrightarrow> github (ctx b) (api_calls b) k"
  by (simp_all add: await_call_def)

lemma payload_repository_calls [simp]:
  "payload_repository (b\<lparr>api_calls := cs\<rparr>) = payload_repository b"
  by (simp add: payload_repository_def)

lemma removeLabel_each_frame:
  "\<exists>cs. snd (removeLabel_each ls b) = b\<lparr>api_calls := api_calls b @ cs\<rparr>"
proof (induction ls arbitrary: b)
  case Nil
  show ?case by (intro exI [of _ "[]"]) simp
next
  case (Cons l ls)
  show ?case
  proof (cases "payload_repository b")
    case (Inl e)
    then show ?thesis by (intro exI [of _ "[]"]) simp
  next
    case (Inr t)
    obtain ow rp where t: "t = (ow, rp)" by (cases t)
    let ?k = "RemoveLabel ow rp (pr_number b) l"
    let ?b1 = "b\<lparr>api_calls := api_calls b @ [?k]\<rparr>"
    show ?thesis
    proof (cases "github (ctx b) (api_calls b) ?k")
      case True
      then have "removeLabel_each (l # ls) b = removeLabel_each ls ?b1"
        using Inr t by (simp add: await_call_def)
      moreover obtain cs where "snd (removeLabel_each ls ?b1) = ?b1\<lparr>api_calls := api_calls ?b1 @ cs\<rparr>"
        using Cons.IH by blast
      ultimately have "snd (removeLabel_each (l # ls) b) = b\<lparr>api_calls := api_calls b @ (?k # cs)\<rparr>"
        by simp
      then show ?thesis by blast
    next
      case False
      then have "snd (removeLabel_each (l # ls) b) = b\<lparr>api_calls := api_calls b @ [?k]\<rparr>"
        using Inr t by (simp add: await_call_def)
      then show ?thesis by blast
    qed
  qed
qed

lemma removeLabel_each_resolved:
  assumes "payload_repository b = Inr (ow, rp)" and "\<forall>h k. github (ctx b) h k"
  shows "removeLabel_each ls b
           = (Returned, b\<lparr>api_calls := api_calls b @ map (RemoveLabel ow rp (pr_number b)) ls\<rparr>)"
  using assms
proof (induction ls arbitrary: b)
  case Nil
  then show ?case by simp
next
  case (Cons l ls)
  let ?b1 = "b\<lparr>api_calls := api_calls b @ [RemoveLabel ow rp (pr_number b) l]\<rparr>"
  from Cons.prems have "removeLabel_each (l # ls) b = removeLabel_each ls ?b1"
    by (simp add: await_call_def)
  moreover have "removeLabel_each ls ?b1
      = (Returned, ?b1\<lparr>api_calls := api_calls ?b1 @ map (RemoveLabel ow rp (pr_number ?b1)) ls\<rparr>)"
    using Cons.prems by (intro Cons.IH) simp_all
  ultimately show ?case by simp
qed

lemma setLabels_frame:
  assumes "dispatch_labels b = Some dl"
  shows "\<exists>cs. snd (setLabels b) =
           (if fst (setLabels b) = Returned
            then b\<lparr>api_calls := cs, dispatch_labels := Some (prefixed_labels dl)\<rparr>
            else b\<lparr>api_calls := cs\<rparr>)"
proof (cases "pr_labels b")
  case None
  with assms show ?thesis by (intro exI [of _ "api_calls b"]) (simp add: setLabels_def)
next
  case (Some pl)
  let ?del = "labelsToDelete pl (prefixed_labels dl)"
  obtain cs where cs: "snd (removeLabel_each ?del b) = b\<lparr>api_calls := api_calls b @ cs\<rparr>"
    using removeLabel_each_frame by blast
  let ?b1 = "b\<lparr>api_calls := api_calls b @ cs\<rparr>"
  obtain r where r: "removeLabel_each ?del b = (r, ?b1)"
    using cs by (cases "removeLabel_each ?del b") auto
  show ?thesis
  proof (cases r)
    case (Threw e)
    with r Some assms have "setLabels b = (Threw e, ?b1)" by (simp add: setLabels_def)
    then show ?thesis by (intro exI [of _ "api_calls b @ cs"]) simp
  next
    case Returned
    show ?thesis
    proof (cases "payload_repository b")
      case (Inl e)
      with r Returned Some assms have "setLabels b = (Threw e, ?b1)" by (simp add: setLabels_def)
      then show ?thesis by (intro exI [of _ "api_calls b @ cs"]) simp
    next
      case (Inr t)
      obtain ow rp where t: "t = (ow, rp)" by (cases t)
      let ?k = "AddLabels ow rp (pr_number b) (labelsToAdd pl (prefixed_labels dl))"
      show ?thesis
      proof (cases "github (ctx b) (api_calls b @ cs) ?k")
        case True
        with r Returned Some assms Inr t
        have "setLabels b = (Returned, b\<lparr>api_calls := api_calls b @ cs @ [?k],
                 dispatch_labels := Some (prefixed_labels dl)\<rparr>)"
          by (simp add: setLabels_def await_call_def)
        then show ?thesis by (intro exI [of _ "api_calls b @ cs @ [?k]"]) simp
      next
        case False
        with r Returned Some assms Inr t
        have "setLabels b = (Threw (PlatformError ?k), b\<lparr>api_calls := api_calls b @ cs @ [?k]\<rparr>)"
          by (simp add: setLabels_def await_call_def)
        then show ?thesis by (intro exI [of _ "api_calls b @ cs @ [?k]"]) simp
      qed
    qed
  qed
qed

lemma setLabels_resolved:
  assumes "dispatch_labels b = Some dl" and "pr_labels b = Some pl"
    and "payload_repository b = Inr (ow, rp)" and "\<forall>h k. github (ctx b) h k"
  shows "setLabels b =
     (Returned,
      b\<lparr>api_calls := api_calls b
           @ map (RemoveLabel ow rp (pr_number b)) (labelsToDelete pl (prefixed_labels dl))
           @ [AddLabels ow rp (pr_number b) (labelsToAdd pl (prefixed_labels dl))],
        dispatch_labels := Some (prefixed_labels dl)\<rparr>)"
  using assms
  by (simp add: setLabels_def removeLabel_each_resolved [OF assms(3,4)] await_call_def)

lemma parseComment_frame: "\<exists>cm ca. parseComment b = b\<lparr>command := cm, command_args := ca\<rparr>"
proof (cases "Option.bind (comment_body b) (match_anchored comment_re)")
  case None
  then show ?thesis
    by (intro exI [of _ "command b"] exI [of _ "command_args b"]) (simp add: parseComment_def)
next
  case (Some found)
  then show ?thesis
    by (intro exI [of _ "command (parseComment b)"] exI [of _ "command_args (parseComment b)"])
      (simp add: parseComment_def Let_def)
qed

lemma setContext_pr_labels:
  "pr_labels (setContext b) =
     map_option (\<lambda>ls. map label_name (filter (\<lambda>l. startsWith (label_name l) pr_label_prefix) ls))
       (Option.bind (or_else (Option.bind (payload (ctx b)) pull_request)
                             (Option.bind (payload (ctx b)) issue)) labels)"
  by (simp add: setContext_def parseComment_def Let_def split: option.splits)

lemma setContext_pr_labels_prefixed:
  assumes "pr_labels (setContext b) = Some pl" and "l \<in> set pl"
  shows "prefix ''ciflow/'' l"
  using assms unfolding setContext_pr_labels
  by (auto simp add: startsWith_iff_prefix pr_label_prefix_def)

lemma prefixed_labels_prefix: "l \<in> set (prefixed_labels dl) \<Longrightarrow> prefix ''ciflow/'' l"
  by (simp add: prefixed_labels_def startsWith_iff_prefix pr_label_prefix_def)

lemma valid_accepts: "fst (valid b) \<Longrightarrow> valid b = (True, b)"
  by (simp add: valid_def split: if_splits)

lemma rollout_log [simp]: "rollout (b\<lparr>log_records := l\<rparr>) = rollout b"
  by (simp add: rollout_def)

lemma handler_cases:
  "handler b =
     (let b2 = (setContext b)\<lparr>log_records := log_records (setContext b)
                 @ [(LogInfo, state_fields (setContext b), ''ciflow dispatch started!'')]\<rparr>
      in if \<not> fst (valid (setContext b)) then (Returned, snd (valid b2))
         else if \<not> rollout (setContext b) then (Returned, b2)
         else dispatch b2)"
proof (cases "fst (valid (setContext b))")
  case False
  then show ?thesis by (simp add: handler_rejected Let_def)
next
  case True
  let ?b2 = "(setContext b)\<lparr>log_records := log_records (setContext b)
                 @ [(LogInfo, state_fields (setContext b), ''ciflow dispatch started!'')]\<rparr>"
  from True have "fst (valid ?b2)" by (simp add: valid_fst_log)
  then have "valid ?b2 = (True, ?b2)" by (rule valid_accepts)
  with True show ?thesis by (simp add: handler_def Let_def)
qed

lemma strategy_origin:
  assumes "\<forall>dl. dispatch_labels b = Some dl \<longrightarrow> set dl \<subseteq> insert ''ciflow/default'' S"
    and "\<forall>pl. pr_labels b = Some pl \<longrightarrow> set pl \<subseteq> S"
  shows "pr_labels (snd (dispatch_strategy_func k b)) = pr_labels b
       \<and> (\<forall>dl. dispatch_labels (snd (dispatch_strategy_func k b)) = Some dl
             \<longrightarrow> set dl \<subseteq> insert ''ciflow/default'' S)"
  using assms
  by (auto simp add: dispatch_strategy_func_def Let_def split: option.splits if_splits)

lemma map_strategies_origin:
  assumes "\<forall>dl. dispatch_labels b = Some dl \<longrightarrow> set dl \<subseteq> insert ''ciflow/default'' S"
    and "\<forall>pl. pr_labels b = Some pl \<longrightarrow> set pl \<subseteq> S"
  shows "pr_labels (snd (map_strategies ks b)) = pr_labels b
       \<and> (\<forall>dl. dispatch_labels (snd (map_strategies ks b)) = Some dl
             \<longrightarrow> set dl \<subseteq> insert ''ciflow/default'' S)"
  using assms
proof (induction ks arbitrary: b)
  case Nil
  then show ?case by simp
next
  case (Cons k ks)
  obtain r b1 where step: "dispatch_strategy_func k b = (r, b1)"
    by (cases "dispatch_strategy_func k b")
  from strategy_origin [OF Cons.prems, of k] step
  have pl: "pr_labels b1 = pr_labels b"
    and dl: "\<forall>dl. dispatch_labels b1 = Some dl \<longrightarrow> set dl \<subseteq> insert ''ciflow/default'' S"
    by simp_all
  show ?case
  proof (cases r)
    case Returned
    with step have "map_strategies (k # ks) b = map_strategies ks b1" by simp
    moreover from Cons.prems(2) pl have "\<forall>pl. pr_labels b1 = Some pl \<longrightarrow> set pl \<subseteq> S" by simp
    ultimately show ?thesis using Cons.IH [OF dl] pl by simp
  next
    case (Threw e)
    with step have "map_strategies (k # ks) b = (Threw e, b1)" by simp
    with pl dl show ?thesis by simp
  qed
qed

lemma setLabels_absent: "dispatch_labels b = None \<Longrightarrow> setLabels b = (Threw TypeError, b)"
  by (simp add: setLabels_def)

lemma prefixed_labels_subset: "set (prefixed_labels dl) \<subseteq> set dl"
  by (simp add: prefixed_labels_def)

lemma setLabels_origin:
  assumes "\<forall>dl. dispatch_labels b = Some dl \<longrightarrow> set dl \<subseteq> T"
  shows "pr_labels (snd (setLabels b)) = pr_labels b
       \<and> (\<forall>dl. dispatch_labels (snd (setLabels b)) = Some dl \<longrightarrow> set dl \<subseteq> T)"
proof (cases "dispatch_labels b")
  case None
  then show ?thesis by (simp add: setLabels_absent)
next
  case (Some dl)
  obtain cs where "snd (setLabels b) =
           (if fst (setLabels b) = Returned
            then b\<lparr>api_calls := cs, dispatch_labels := Some (prefixed_labels dl)\<rparr>
            else b\<lparr>api_calls := cs\<rparr>)"
    using setLabels_frame [OF Some] by blast
  moreover from assms Some have "set dl \<subseteq> T" by simp
  ultimately show ?thesis using Some prefixed_labels_subset [of dl] by auto
qed

lemma signal_github_frame: "\<exists>cs. snd (signal_github b) = b\<lparr>api_calls := cs\<rparr>"
proof (cases "github (ctx b) (api_calls b) (AddAssignees (owner b) (repo b) (pr_number b) [bot_assignee])")
  case True
  then show ?thesis
    by (intro exI [of _ "api_calls (snd (signal_github b))"])
      (simp add: signal_github_def await_call_def)
next
  case False
  then show ?thesis
    by (intro exI [of _ "api_calls (snd (signal_github b))"])
      (simp add: signal_github_def await_call_def)
qed

lemma dispatch_fields:
  "dispatch_labels (snd (dispatch b)) = dispatch_labels (snd (map_strategies (dispatch_strategies b) b))
   \<or> dispatch_labels (snd (dispatch b))
       = dispatch_labels (snd (setLabels (snd (map_strategies (dispatch_strategies b) b))))"
proof -
  obtain r1 b1 where m: "map_strategies (dispatch_strategies b) b = (r1, b1)"
    by (cases "map_strategies (dispatch_strategies b) b")
  obtain r2 b2 where s: "setLabels b1 = (r2, b2)" by (cases "setLabels b1")
  obtain r3 b3 where g: "signal_github b2 = (r3, b3)" by (cases "signal_github b2")
  obtain cs where "snd (signal_github b2) = b2\<lparr>api_calls := cs\<rparr>"
    using signal_github_frame by blast
  with g have b3: "dispatch_labels b3 = dispatch_labels b2" by simp
  show ?thesis
    using m s g b3 by (cases r1; cases r2; cases r3) (simp_all add: dispatch_def)
qed

lemma add_default_returned:
  assumes "map_strategies [strategy_add_default_labels] b = (Returned, b1)"
  shows "\<exists>dl0. dispatch_labels b1 = Some (''ciflow/default'' # dl0)"
  using assms
  by (auto simp add: dispatch_strategy_func_def Let_def split: option.splits if_splits)

lemma add_default_step:
  assumes "dispatch_labels b = Some dl" and "pr_labels b = Some pl"
  shows "map_strategies [strategy_add_default_labels] b
           = (Returned, b\<lparr>dispatch_labels := Some (''ciflow/default'' # (if dl = [] then pl else dl))\<rparr>)"
  using assms by (simp add: dispatch_strategy_func_def)

lemma dispatch_returned:
  assumes "dispatch b = (Returned, b')"
  shows "\<exists>b1 dl. map_strategies (dispatch_strategies b) b = (Returned, b1)
           \<and> dispatch_labels b1 = Some dl \<and> dispatch_labels b' = Some (prefixed_labels dl)"
proof -
  obtain r1 b1 where m: "map_strategies (dispatch_strategies b) b = (r1, b1)"
    by (cases "map_strategies (dispatch_strategies b) b")
  obtain r2 b2 where s: "setLabels b1 = (r2, b2)" by (cases "setLabels b1")
  obtain r3 b3 where g: "signal_github b2 = (r3, b3)" by (cases "signal_github b2")
  from assms m s g have r: "r1 = Returned" "r2 = Returned" "r3 = Returned"
    and b': "dispatch_labels b' = dispatch_labels b3"
    by (cases r1; cases r2; cases r3; auto simp add: dispatch_def)+
  obtain cs where "snd (signal_github b2) = b2\<lparr>api_calls := cs\<rparr>"
    using signal_github_frame by blast
  with g have b3: "dispatch_labels b3 = dispatch_labels b2" by simp
  obtain dl where dl: "dispatch_labels b1 = Some dl"
    using s r(2) by (cases "dispatch_labels b1") (auto simp add: setLabels_absent)
  obtain cs where "snd (setLabels b1) =
           (if fst (setLabels b1) = Returned
            then b1\<lparr>api_calls := cs, dispatch_labels := Some (prefixed_labels dl)\<rparr>
            else b1\<lparr>api_calls := cs\<rparr>)"
    using setLabels_frame [OF dl] by blast
  with s r(2) have "dispatch_labels b2 = Some (prefixed_labels dl)" by simp
  with m r(1) dl b' b3 show ?thesis by simp
qed

lemma default_prefixed: "prefixed_labels (''ciflow/default'' # dl) = ''ciflow/default'' # prefixed_labels dl"
  by (simp add: prefixed_labels_def startsWith_def pr_label_prefix_def)

lemma prefixed_labels_idem: "prefixed_labels (prefixed_labels dl) = prefixed_labels dl"
  by (simp add: prefixed_labels_def)

lemma setContext_pull_request:
  assumes "payload c = Some p" and "pull_request p = Some pr"
    and "issue_user pr = Some au" and "labels pr = Some ls"
    and "repository p = Some rp" and "repo_owner rp = Some ou"
  shows "\<exists>cm ca. setContext (CIFlowBot c) =
     \<lparr> ctx = c, command = cm, command_args = ca,
       comment_author = Option.bind (Option.bind (comment p) comment_user) login,
       comment_body = Option.bind (comment p) body,
       dispatch_labels = Some [],
       dispatch_strategies = [strategy_add_default_labels],
       event = name c, owner = login ou, pr_author = login au,
       pr_labels = Some (map label_name (filter (\<lambda>l. startsWith (label_name l) pr_label_prefix) ls)),
       pr_number = number pr, repo = repo_name rp, log_records = [], api_calls = [] \<rparr>"
proof -
  let ?x = "(CIFlowBot c)\<lparr>event := name c,
              pr_number := number pr,
              pr_author := login au,
              pr_labels := Some (map label_name (filter (\<lambda>l. startsWith (label_name l) pr_label_prefix) ls)),
              comment_author := Option.bind (Option.bind (comment p) comment_user) login,
              comment_body := Option.bind (comment p) body,
              owner := login ou,
              repo := repo_name rp\<rparr>"
  from assms have "setContext (CIFlowBot c) = parseComment ?x"
    by (simp add: setContext_def Let_def or_else_def CIFlowBot_fields)
  moreover obtain cm ca where "parseComment ?x = ?x\<lparr>command := cm, command_args := ca\<rparr>"
    using parseComment_frame by blast
  ultimately have "setContext (CIFlowBot c) = ?x\<lparr>command := cm, command_args := ca\<rparr>" by simp
  then show ?thesis by (simp add: CIFlowBot_def)
qed

section \<open>Authorization\<close>

text \<open>
  C1. \<open>valid\<close> is a total function to a boolean (it cannot raise). It answers true exactly
  when the event kind is \<^verbatim>\<open>pull_request\<close>, or the kind is \<^verbatim>\<open>issue_comment\<close>, the comment
  author is not the empty string and is the pull-request author, and the parsed command is
  one of the allowed commands. Every other kind is rejected. Authors are compared as the
  fields hold them.
\<close>

theorem valid_iff:
  "fst (valid b) \<longleftrightarrow>
     event b = ''pull_request''
     \<or> (event b = ''issue_comment'' \<and> comment_author b \<noteq> Some '''' \<and>
        comment_author b = pr_author b \<and> command b \<in> set allowed_commands)"
  by (auto simp add: valid_def event_pull_request_def event_issue_comment_def array_includes_iff)

theorem valid_iff_witness:
  "fst (valid (setContext (CIFlowBot
      (comment_event ''zhouzhuojie'' ''zhouzhuojie'' ''@pytorchbot ciflow default'' []))))
   \<and> \<not> fst (valid (setContext (CIFlowBot
      (comment_event ''zhouzhuojie'' ''mallory'' ''@pytorchbot ciflow default'' []))))
   \<and> \<not> fst (valid ((CIFlowBot (pr_opened_event ''zhouzhuojie'' []))\<lparr>event := ''push''\<rparr>))"
proof -
  let ?own = "setContext (CIFlowBot
      (comment_event ''zhouzhuojie'' ''zhouzhuojie'' ''@pytorchbot ciflow default'' []))"
  let ?other = "setContext (CIFlowBot
      (comment_event ''zhouzhuojie'' ''mallory'' ''@pytorchbot ciflow default'' []))"
  have "event ?own = ''issue_comment''" "comment_author ?own = Some ''zhouzhuojie''"
    "pr_author ?own = Some ''zhouzhuojie''" "command ?own = ''ciflow''"
    by code_simp+
  then have 1: "fst (valid ?own)"
    using valid_iff [of ?own] by (simp add: allowed_commands_def)
  have "event ?other = ''issue_comment''" "comment_author ?other = Some ''mallory''"
    "pr_author ?other = Some ''zhouzhuojie''"
    by code_simp+
  then have 2: "\<not> fst (valid ?other)"
    using valid_iff [of ?other] by simp
  have 3: "\<not> fst (valid ((CIFlowBot (pr_opened_event ''zhouzhuojie'' []))\<lparr>event := ''push''\<rparr>))"
    using valid_iff [of "(CIFlowBot (pr_opened_event ''zhouzhuojie'' []))\<lparr>event := ''push''\<rparr>"]
    by simp
  from 1 2 3 show ?thesis by blast
qed

section \<open>The rollout gate\<close>

text \<open>
  C6. \<open>rollout\<close> answers true exactly when the pull-request author's login is one of the
  rollout users. For an event whose pull-request author is not one of them, the handler
  returns normally without any platform call: no label and no assignee is touched, whatever
  \<open>valid\<close> answered.
\<close>

theorem rollout_gate:
  "(rollout b \<longleftrightarrow> (\<exists>a. pr_author b = Some a \<and> a \<in> set rollout_users))
   \<and> (pr_author (setContext (CIFlowBot c)) \<notin> Some ` set rollout_users \<longrightarrow>
        \<not> rollout (setContext (CIFlowBot c))
        \<and> fst (webhookHandler c) = Returned
        \<and> api_calls (snd (webhookHandler c)) = [])"
proof -
  have 1: "rollout b \<longleftrightarrow> (\<exists>a. pr_author b = Some a \<and> a \<in> set rollout_users)"
    by (auto simp add: rollout_iff)
  have 2: "\<not> rollout (setContext (CIFlowBot c))
        \<and> fst (webhookHandler c) = Returned
        \<and> api_calls (snd (webhookHandler c)) = []"
    if "pr_author (setContext (CIFlowBot c)) \<notin> Some ` set rollout_users"
  proof -
    from that have nr: "\<not> rollout (setContext (CIFlowBot c))" by (simp add: rollout_iff)
    then show ?thesis
      by (simp add: webhookHandler_def handler_cases Let_def valid_snd_fields setContext_fields
          CIFlowBot_fields)
  qed
  from 1 2 show ?thesis by blast
qed

theorem rollout_gate_witness:
  "\<not> rollout (setContext (CIFlowBot (pr_opened_event ''alice'' [])))
   \<and> fst (valid (setContext (CIFlowBot (pr_opened_event ''alice'' []))))
   \<and> fst (webhookHandler (pr_opened_event ''alice'' [])) = Returned
   \<and> api_calls (snd (webhookHandler (pr_opened_event ''alice'' []))) = []
   \<and> rollout (setContext (CIFlowBot (pr_opened_event ''zhouzhuojie'' [])))"
proof -
  have pa: "pr_author (setContext (CIFlowBot (pr_opened_event ''alice'' []))) = Some ''alice''"
    by code_simp
  have h: "pr_author (setContext (CIFlowBot (pr_opened_event ''alice'' []))) \<notin> Some ` set rollout_users"
    unfolding pa by (simp add: rollout_users_def)
  have v: "fst (valid (setContext (CIFlowBot (pr_opened_event ''alice'' []))))"
    by code_simp
  have pz: "pr_author (setContext (CIFlowBot (pr_opened_event ''zhouzhuojie'' []))) = Some ''zhouzhuojie''"
    by code_simp
  have z: "rollout (setContext (CIFlowBot (pr_opened_event ''zhouzhuojie'' [])))"
    using rollout_gate [of "setContext (CIFlowBot (pr_opened_event ''zhouzhuojie'' []))", THEN conjunct1]
    unfolding pz by (simp add: rollout_users_def)
  from rollout_gate [of _ "pr_opened_event ''alice'' []", THEN conjunct2, rule_format, OF h] v z
  show ?thesis by blast
qed

section \<open>Comment parsing\<close>

text \<open>
  C7. Parsing the body \<^verbatim>\<open>hey @pytorchbot ciflow default\<close> sets the command to \<^verbatim>\<open>ciflow\<close>
  and the arguments to the list holding \<^verbatim>\<open>default\<close>; the body \<^verbatim>\<open>no mention here\<close>
  changes no field; the body \<^verbatim>\<open>@pytorchbot ciflow\<close> sets the command to \<^verbatim>\<open>ciflow\<close> and the
  arguments to the one-element list holding the empty string.
\<close>

theorem parseComment_examples:
  "parseComment (b\<lparr>comment_body := Some ''hey @pytorchbot ciflow default''\<rparr>)
     = b\<lparr>comment_body := Some ''hey @pytorchbot ciflow default'',
          command := ''ciflow'', command_args := [''default'']\<rparr>
   \<and> parseComment (b\<lparr>comment_body := Some ''no mention here''\<rparr>)
     = b\<lparr>comment_body := Some ''no mention here''\<rparr>
   \<and> parseComment (b\<lparr>comment_body := Some ''@pytorchbot ciflow''\<rparr>)
     = b\<lparr>comment_body := Some ''@pytorchbot ciflow'',
          command := ''ciflow'', command_args := ['''']\<rparr>"
  by (simp add: parseComment_def match_hey match_no_mention match_bare)

text \<open>
  C10. When the payload has no comment body, as in every pull-request event, or the body does
  not contain \<^verbatim>\<open>@pytorchbot\<close>, parsing is a total function that leaves the command the empty
  string and the arguments the empty list, as the constructor set them. A comment event with
  such a body is therefore rejected by \<open>valid\<close>, the empty string not being an allowed
  command, and the handler returns without a platform call.
\<close>

theorem no_mention_no_command:
  assumes "case Option.bind (Option.bind (payload c) comment) body of
             None \<Rightarrow> True | Some s \<Rightarrow> \<not> sublist ''@pytorchbot'' s"
  shows "command (setContext (CIFlowBot c)) = []
       \<and> command_args (setContext (CIFlowBot c)) = []
       \<and> (name c = ''issue_comment'' \<longrightarrow>
            \<not> fst (valid (setContext (CIFlowBot c)))
            \<and> fst (webhookHandler c) = Returned
            \<and> api_calls (snd (webhookHandler c)) = [])"
proof -
  obtain b' where sc: "setContext (CIFlowBot c) = parseComment b'"
    and c0: "command b' = []" and a0: "command_args b' = []"
    and cb: "comment_body b' = Option.bind (Option.bind (payload c) comment) body"
    using setContext_eq_parseComment [of "CIFlowBot c"] by (auto simp add: CIFlowBot_fields)
  from assms cb have "parseComment b' = b'" by (simp add: parseComment_no_mention)
  with sc c0 a0 have cmd: "command (setContext (CIFlowBot c)) = []"
    and args: "command_args (setContext (CIFlowBot c)) = []" by simp_all
  have rej: "\<not> fst (valid (setContext (CIFlowBot c)))" if "name c = ''issue_comment''"
    using that cmd
    by (simp add: valid_def setContext_fields CIFlowBot_fields event_pull_request_def
        event_issue_comment_def allowed_commands_def)
  have "fst (webhookHandler c) = Returned \<and> api_calls (snd (webhookHandler c)) = []"
    if "name c = ''issue_comment''"
    unfolding webhookHandler_def handler_rejected [OF rej [OF that]]
    by (simp add: valid_snd_fields setContext_fields CIFlowBot_fields)
  with cmd args rej show ?thesis by blast
qed

theorem no_mention_no_command_witness:
  "(case Option.bind (Option.bind (payload (comment_event ''zhouzhuojie'' ''zhouzhuojie'' ''no mention here'' [])) comment) body of
             None \<Rightarrow> True | Some s \<Rightarrow> \<not> sublist ''@pytorchbot'' s)
   \<and> command (setContext (CIFlowBot (comment_event ''zhouzhuojie'' ''zhouzhuojie'' ''no mention here'' []))) = []
   \<and> \<not> fst (valid (setContext (CIFlowBot (comment_event ''zhouzhuojie'' ''zhouzhuojie'' ''no mention here'' []))))
   \<and> api_calls (snd (webhookHandler (comment_event ''zhouzhuojie'' ''zhouzhuojie'' ''no mention here'' []))) = []"
proof -
  have h: "case Option.bind (Option.bind (payload (comment_event ''zhouzhuojie'' ''zhouzhuojie'' ''no mention here'' [])) comment) body of
             None \<Rightarrow> True | Some s \<Rightarrow> \<not> sublist ''@pytorchbot'' s"
    by code_simp
  show ?thesis
    using h no_mention_no_command [OF h] by simp
qed

section \<open>The strategy pipeline\<close>

text \<open>
  C9. A strategy key other than the known one makes the pipeline step return normally
  with one error record logged and nothing else changed, the accumulator of dispatch labels
  in particular; the pipeline then goes on with the remaining keys from that state.
\<close>

theorem unknown_strategy_skipped:
  assumes "k \<noteq> strategy_add_default_labels"
  shows "dispatch_strategy_func k b
           = (Returned, b\<lparr>log_records := log_records b
                @ [(LogError, StrategyFields k, ''Unknown dispatch strategy'')]\<rparr>)
         \<and> dispatch_labels (snd (dispatch_strategy_func k b)) = dispatch_labels b
         \<and> map_strategies (k # ks) b = map_strategies ks (snd (dispatch_strategy_func k b))"
  using assms by (simp add: dispatch_strategy_func_def)

theorem unknown_strategy_skipped_witness:
  "''strategy_infer_labels'' \<noteq> strategy_add_default_labels
   \<and> fst (dispatch_strategy_func ''strategy_infer_labels''
            ((CIFlowBot (pr_opened_event ''zhouzhuojie'' []))\<lparr>dispatch_labels := Some [''ciflow/slow'']\<rparr>))
       = Returned
   \<and> dispatch_labels (snd (dispatch_strategy_func ''strategy_infer_labels''
            ((CIFlowBot (pr_opened_event ''zhouzhuojie'' []))\<lparr>dispatch_labels := Some [''ciflow/slow'']\<rparr>)))
       = Some [''ciflow/slow'']"
proof -
  have h: "''strategy_infer_labels'' \<noteq> strategy_add_default_labels"
    by (simp add: strategy_add_default_labels_def)
  show ?thesis
    using h unknown_strategy_skipped [OF h,
        of "(CIFlowBot (pr_opened_event ''zhouzhuojie'' []))\<lparr>dispatch_labels := Some [''ciflow/slow'']\<rparr>"]
    by simp
qed

text \<open>
  C8. Starting from the empty accumulator the constructor leaves, every label among the
  dispatch labels is \<^verbatim>\<open>ciflow/default\<close> or one of the pull request's current namespaced
  labels: after the pipeline has run over any list of strategy keys, after the reconciliation
  that follows it, and in the state the handler ends in.
\<close>

theorem dispatch_labels_origin:
  assumes "dispatch_labels b = Some []"
  shows "(\<forall>l dl. dispatch_labels (snd (map_strategies ks b)) = Some dl \<and> l \<in> set dl \<longrightarrow>
            l = ''ciflow/default'' \<or> (\<exists>pl. pr_labels b = Some pl \<and> l \<in> set pl))
       \<and> (\<forall>l dl. dispatch_labels (snd (setLabels (snd (map_strategies ks b)))) = Some dl \<and> l \<in> set dl \<longrightarrow>
            l = ''ciflow/default'' \<or> (\<exists>pl. pr_labels b = Some pl \<and> l \<in> set pl))
       \<and> (\<forall>l dl. dispatch_labels (snd (handler b)) = Some dl \<and> l \<in> set dl \<longrightarrow>
            l = ''ciflow/default'' \<or> (\<exists>pl. pr_labels (setContext b) = Some pl \<and> l \<in> set pl))"
proof -
  have pipeline: "\<forall>dl. dispatch_labels (snd (map_strategies js s)) = Some dl
          \<longrightarrow> set dl \<subseteq> insert ''ciflow/default'' (case pr_labels s of None \<Rightarrow> {} | Some pl \<Rightarrow> set pl)"
    and reconciled: "\<forall>dl. dispatch_labels (snd (setLabels (snd (map_strategies js s)))) = Some dl
          \<longrightarrow> set dl \<subseteq> insert ''ciflow/default'' (case pr_labels s of None \<Rightarrow> {} | Some pl \<Rightarrow> set pl)"
    if "dispatch_labels s = Some []" for s js
  proof -
    let ?S = "case pr_labels s of None \<Rightarrow> {} | Some pl \<Rightarrow> set pl"
    from that have a: "\<forall>dl. dispatch_labels s = Some dl \<longrightarrow> set dl \<subseteq> insert ''ciflow/default'' ?S"
      by simp
    have c: "\<forall>pl. pr_labels s = Some pl \<longrightarrow> set pl \<subseteq> ?S" by simp
    from map_strategies_origin [OF a c, of js]
    show "\<forall>dl. dispatch_labels (snd (map_strategies js s)) = Some dl
          \<longrightarrow> set dl \<subseteq> insert ''ciflow/default'' ?S"
      by simp
    then show "\<forall>dl. dispatch_labels (snd (setLabels (snd (map_strategies js s)))) = Some dl
          \<longrightarrow> set dl \<subseteq> insert ''ciflow/default'' ?S"
      using setLabels_origin by blast
  qed
  have 1: "l = ''ciflow/default'' \<or> (\<exists>pl. pr_labels b = Some pl \<and> l \<in> set pl)"
    if "dispatch_labels (snd (map_strategies ks b)) = Some dl \<and> l \<in> set dl" for l dl
    using pipeline [OF assms, of ks] that by (cases "pr_labels b") auto
  have 2: "l = ''ciflow/default'' \<or> (\<exists>pl. pr_labels b = Some pl \<and> l \<in> set pl)"
    if "dispatch_labels (snd (setLabels (snd (map_strategies ks b)))) = Some dl \<and> l \<in> set dl" for l dl
    using reconciled [OF assms, of ks] that by (cases "pr_labels b") auto
  have 3: "l = ''ciflow/default'' \<or> (\<exists>pl. pr_labels (setContext b) = Some pl \<and> l \<in> set pl)"
    if h: "dispatch_labels (snd (handler b)) = Some dl \<and> l \<in> set dl" for l dl
  proof -
    let ?b2 = "(setContext b)\<lparr>log_records := log_records (setContext b)
                 @ [(LogInfo, state_fields (setContext b), ''ciflow dispatch started!'')]\<rparr>"
    have d0: "dispatch_labels ?b2 = Some []" using assms by (simp add: setContext_fields)
    have p0: "pr_labels ?b2 = pr_labels (setContext b)" by simp
    have "handler b = (Returned, snd (valid ?b2)) \<or> handler b = (Returned, ?b2)
        \<or> handler b = dispatch ?b2"
      by (simp add: handler_cases Let_def)
    then consider (rej) "handler b = (Returned, snd (valid ?b2))" | (gated) "handler b = (Returned, ?b2)"
      | (run) "handler b = dispatch ?b2"
      by blast
    then show ?thesis
    proof cases
      case rej
      have "dispatch_labels (snd (valid ?b2)) = Some []"
        using d0 by (simp add: valid_def)
      with rej h show ?thesis by auto
    next
      case gated
      with d0 h show ?thesis by auto
    next
      case run
      with h dispatch_fields [of ?b2]
      have "dispatch_labels (snd (map_strategies (dispatch_strategies ?b2) ?b2)) = Some dl
          \<or> dispatch_labels (snd (setLabels (snd (map_strategies (dispatch_strategies ?b2) ?b2)))) = Some dl"
        by auto
      with pipeline [OF d0, of "dispatch_strategies ?b2"] reconciled [OF d0, of "dispatch_strategies ?b2"]
      have "set dl \<subseteq> insert ''ciflow/default''
              (case pr_labels ?b2 of None \<Rightarrow> {} | Some pl \<Rightarrow> set pl)"
        by blast
      with h p0 show ?thesis by (cases "pr_labels (setContext b)") auto
    qed
  qed
  from 1 2 3 show ?thesis by blast
qed

theorem dispatch_labels_origin_witness:
  "dispatch_labels (CIFlowBot (pr_opened_event ''zhouzhuojie'' [''ciflow/old'', ''bug''])) = Some []
   \<and> dispatch_labels (snd (handler (CIFlowBot (pr_opened_event ''zhouzhuojie'' [''ciflow/old'', ''bug'']))))
       = Some [''ciflow/default'', ''ciflow/old'']
   \<and> (\<exists>pl. pr_labels (setContext (CIFlowBot (pr_opened_event ''zhouzhuojie'' [''ciflow/old'', ''bug''])))
               = Some pl \<and> ''ciflow/old'' \<in> set pl)"
proof -
  let ?init = "CIFlowBot (pr_opened_event ''zhouzhuojie'' [''ciflow/old'', ''bug''])"
  have h: "dispatch_labels ?init = Some []"
    by (simp add: CIFlowBot_fields)
  have d: "dispatch_labels (snd (handler ?init)) = Some [''ciflow/default'', ''ciflow/old'']"
    by code_simp
  from dispatch_labels_origin [OF h, of "[]"]
  have "\<forall>l dl. dispatch_labels (snd (handler ?init)) = Some dl \<and> l \<in> set dl \<longrightarrow>
            l = ''ciflow/default'' \<or> (\<exists>pl. pr_labels (setContext ?init) = Some pl \<and> l \<in> set pl)"
    by blast
  with d have "''ciflow/old'' = ''ciflow/default''
      \<or> (\<exists>pl. pr_labels (setContext ?init) = Some pl \<and> ''ciflow/old'' \<in> set pl)"
    by simp
  then have "\<exists>pl. pr_labels (setContext ?init) = Some pl \<and> ''ciflow/old'' \<in> set pl"
    by simp
  with h d show ?thesis by blast
qed

section \<open>Label reconciliation\<close>

text \<open>
  C2. With the current labels \<open>pl\<close> as \<open>setContext\<close> extracted them and the target list
  \<open>dl\<close>, the target is first filtered to the labels that start with \<^verbatim>\<open>ciflow/\<close>;
  \<open>labelsToDelete\<close> is exactly the current labels not in the filtered target and
  \<open>labelsToAdd\<close> exactly the filtered target labels not among the current ones, in order.
  Every label of either list starts with \<^verbatim>\<open>ciflow/\<close>. Whenever \<open>setLabels\<close> returns normally
  the dispatch labels are the filtered target; and when the payload names the repository and
  every platform call resolves, it does return normally, having issued one remove-label call
  per label to delete and then one add-labels call with the labels to add.
\<close>

theorem setLabels_reconciles:
  assumes "pr_labels b = pr_labels (setContext b0)"
    and "pr_labels b = Some pl" and "dispatch_labels b = Some dl"
  shows "prefixed_labels dl = filter (prefix ''ciflow/'') dl
       \<and> labelsToDelete pl (prefixed_labels dl) = filter (\<lambda>l. l \<notin> set (prefixed_labels dl)) pl
       \<and> labelsToAdd pl (prefixed_labels dl) = filter (\<lambda>l. l \<notin> set pl) (prefixed_labels dl)
       \<and> (\<forall>l \<in> set (labelsToDelete pl (prefixed_labels dl)) \<union> set (labelsToAdd pl (prefixed_labels dl)).
             prefix ''ciflow/'' l)
       \<and> (\<forall>b'. setLabels b = (Returned, b') \<longrightarrow> dispatch_labels b' = Some (prefixed_labels dl))
       \<and> (\<forall>ow rp. payload_repository b = Inr (ow, rp) \<and> (\<forall>h k. github (ctx b) h k) \<longrightarrow>
            setLabels b =
              (Returned,
               b\<lparr>api_calls := api_calls b
                    @ map (RemoveLabel ow rp (pr_number b)) (labelsToDelete pl (prefixed_labels dl))
                    @ [AddLabels ow rp (pr_number b) (labelsToAdd pl (prefixed_labels dl))],
                 dispatch_labels := Some (prefixed_labels dl)\<rparr>))"
proof -
  have 1: "prefixed_labels dl = filter (prefix ''ciflow/'') dl"
    by (simp add: prefixed_labels_def startsWith_iff_prefix pr_label_prefix_def)
  have 2: "labelsToDelete pl (prefixed_labels dl) = filter (\<lambda>l. l \<notin> set (prefixed_labels dl)) pl"
    by (simp add: labelsToDelete_def array_includes_iff)
  have 3: "labelsToAdd pl (prefixed_labels dl) = filter (\<lambda>l. l \<notin> set pl) (prefixed_labels dl)"
    by (simp add: labelsToAdd_def array_includes_iff)
  have 4: "prefix ''ciflow/'' l"
    if "l \<in> set (labelsToDelete pl (prefixed_labels dl)) \<union> set (labelsToAdd pl (prefixed_labels dl))" for l
  proof -
    from that have "l \<in> set pl \<or> l \<in> set (prefixed_labels dl)" unfolding 2 3 by auto
    then show ?thesis
      using setContext_pr_labels_prefixed [of b0 pl l] assms(1,2) prefixed_labels_prefix by auto
  qed
  have 5: "dispatch_labels b' = Some (prefixed_labels dl)" if "setLabels b = (Returned, b')" for b'
  proof -
    obtain cs where "snd (setLabels b) =
           (if fst (setLabels b) = Returned
            then b\<lparr>api_calls := cs, dispatch_labels := Some (prefixed_labels dl)\<rparr>
            else b\<lparr>api_calls := cs\<rparr>)"
      using setLabels_frame [OF assms(3)] by blast
    with that show ?thesis by simp
  qed
  have 6: "setLabels b =
              (Returned,
               b\<lparr>api_calls := api_calls b
                    @ map (RemoveLabel ow rp (pr_number b)) (labelsToDelete pl (prefixed_labels dl))
                    @ [AddLabels ow rp (pr_number b) (labelsToAdd pl (prefixed_labels dl))],
                 dispatch_labels := Some (prefixed_labels dl)\<rparr>)"
    if "payload_repository b = Inr (ow, rp) \<and> (\<forall>h k. github (ctx b) h k)" for ow rp
    using that setLabels_resolved [OF assms(3,2)] by blast
  from 1 2 3 4 5 6 show ?thesis by blast
qed

theorem setLabels_reconciles_witness:
  "labelsToDelete [''ciflow/old''] (prefixed_labels [''ciflow/default'', ''other'']) = [''ciflow/old'']
   \<and> labelsToAdd [''ciflow/old''] (prefixed_labels [''ciflow/default'', ''other'']) = [''ciflow/default'']
   \<and> dispatch_labels (snd (setLabels
         ((setContext (CIFlowBot (pr_opened_event ''zhouzhuojie'' [''ciflow/old'', ''bug''])))
            \<lparr>dispatch_labels := Some [''ciflow/default'', ''other'']\<rparr>)))
       = Some [''ciflow/default'']
   \<and> api_calls (snd (setLabels
         ((setContext (CIFlowBot (pr_opened_event ''zhouzhuojie'' [''ciflow/old'', ''bug''])))
            \<lparr>dispatch_labels := Some [''ciflow/default'', ''other'']\<rparr>)))
       = [RemoveLabel (Some ''pytorch'') (Some ''pytorch'') (Some 7) ''ciflow/old'',
          AddLabels (Some ''pytorch'') (Some ''pytorch'') (Some 7) [''ciflow/default'']]"
proof -
  let ?init = "CIFlowBot (pr_opened_event ''zhouzhuojie'' [''ciflow/old'', ''bug''])"
  let ?b = "(setContext ?init)\<lparr>dispatch_labels := Some [''ciflow/default'', ''other'']\<rparr>"
  have h1: "pr_labels ?b = pr_labels (setContext ?init)" by simp
  have h2: "pr_labels ?b = Some [''ciflow/old'']" by code_simp
  have h3: "dispatch_labels ?b = Some [''ciflow/default'', ''other'']" by simp
  have r: "payload_repository ?b = Inr (Some ''pytorch'', Some ''pytorch'')" by code_simp
  have g: "\<forall>h k. github (ctx ?b) h k" by (simp add: setContext_fields CIFlowBot_fields)
  have n: "pr_number ?b = Some 7" by code_simp
  have c: "api_calls ?b = []" by code_simp
  have p: "prefixed_labels [''ciflow/default'', ''other''] = [''ciflow/default'']" by code_simp
  note t = setLabels_reconciles [OF h1 h2 h3]
  from t have d: "labelsToDelete [''ciflow/old''] (prefixed_labels [''ciflow/default'', ''other''])
      = [''ciflow/old'']"
    unfolding p by simp
  from t have a: "labelsToAdd [''ciflow/old''] (prefixed_labels [''ciflow/default'', ''other''])
      = [''ciflow/default'']"
    unfolding p by simp
  from t r g have "setLabels ?b =
              (Returned,
               ?b\<lparr>api_calls := api_calls ?b
                    @ map (RemoveLabel (Some ''pytorch'') (Some ''pytorch'') (pr_number ?b))
                        (labelsToDelete [''ciflow/old''] (prefixed_labels [''ciflow/default'', ''other'']))
                    @ [AddLabels (Some ''pytorch'') (Some ''pytorch'') (pr_number ?b)
                        (labelsToAdd [''ciflow/old''] (prefixed_labels [''ciflow/default'', ''other'']))],
                 dispatch_labels := Some (prefixed_labels [''ciflow/default'', ''other''])\<rparr>)"
    by blast
  then have "dispatch_labels (snd (setLabels ?b)) = Some [''ciflow/default'']
      \<and> api_calls (snd (setLabels ?b))
          = [RemoveLabel (Some ''pytorch'') (Some ''pytorch'') (Some 7) ''ciflow/old'',
             AddLabels (Some ''pytorch'') (Some ''pytorch'') (Some 7) [''ciflow/default'']]"
    using d a unfolding n c p by simp
  with d a show ?thesis by blast
qed

text \<open>
  C4. Let a first dispatch complete and leave the dispatch labels \<open>d1\<close>. On a second run
  whose current labels are \<open>d1\<close>, whether the accumulator starts empty as in a new bot or
  still holds \<open>d1\<close>, the pipeline returns normally, \<open>d1\<close> already holds the default label,
  and both \<open>labelsToAdd\<close> and \<open>labelsToDelete\<close> are empty: the reconciliation issues
  no remove-label call and one add-labels call with the empty list.
\<close>

theorem second_run_no_changes:
  assumes "dispatch_strategies b = [strategy_add_default_labels]"
    and "dispatch b = (Returned, b')"
    and "dispatch_labels b' = Some d1"
    and "dispatch_strategies s = [strategy_add_default_labels]"
    and "pr_labels s = Some d1"
    and "dispatch_labels s = Some [] \<or> dispatch_labels s = Some d1"
  shows "\<exists>dl. map_strategies (dispatch_strategies s) s = (Returned, s\<lparr>dispatch_labels := Some dl\<rparr>)
           \<and> ''ciflow/default'' \<in> set d1
           \<and> labelsToAdd d1 (prefixed_labels dl) = []
           \<and> labelsToDelete d1 (prefixed_labels dl) = []
           \<and> (\<forall>ow rp. payload_repository s = Inr (ow, rp) \<longrightarrow>
                 api_calls (snd (setLabels (s\<lparr>dispatch_labels := Some dl\<rparr>)))
                   = api_calls s @ [AddLabels ow rp (pr_number s) []])"
proof -
  obtain b1 dl1 where "map_strategies (dispatch_strategies b) b = (Returned, b1)"
    and "dispatch_labels b1 = Some dl1" and "dispatch_labels b' = Some (prefixed_labels dl1)"
    using dispatch_returned [OF assms(2)] by blast
  moreover then obtain dl0 where "dispatch_labels b1 = Some (''ciflow/default'' # dl0)"
    using add_default_returned assms(1) by metis
  ultimately have d1: "d1 = ''ciflow/default'' # prefixed_labels dl0"
    using assms(3) by (auto simp add: default_prefixed)
  then have mem: "''ciflow/default'' \<in> set d1" by simp
  have idem: "prefixed_labels d1 = d1"
    unfolding d1 by (simp add: default_prefixed prefixed_labels_idem)
  let ?dl = "''ciflow/default'' # d1"
  have run: "map_strategies (dispatch_strategies s) s = (Returned, s\<lparr>dispatch_labels := Some ?dl\<rparr>)"
    using assms(6)
  proof
    assume "dispatch_labels s = Some []"
    from add_default_step [OF this assms(5)] assms(4) show ?thesis by simp
  next
    assume "dispatch_labels s = Some d1"
    from add_default_step [OF this assms(5)] assms(4) d1 show ?thesis by simp
  qed
  have p: "prefixed_labels ?dl = ?dl" by (simp add: default_prefixed idem)
  have add: "labelsToAdd d1 (prefixed_labels ?dl) = []"
    unfolding p using mem by (simp add: labelsToAdd_def array_includes_iff)
  have del: "labelsToDelete d1 (prefixed_labels ?dl) = []"
    unfolding p by (simp add: labelsToDelete_def array_includes_iff)
  have calls: "api_calls (snd (setLabels (s\<lparr>dispatch_labels := Some ?dl\<rparr>)))
                   = api_calls s @ [AddLabels ow rp (pr_number s) []]"
    if "payload_repository s = Inr (ow, rp)" for ow rp
    using that assms(5) add del
    by (simp add: setLabels_def payload_repository_def await_call_def split: option.splits)
  from run mem add del calls show ?thesis by blast
qed

theorem second_run_no_changes_witness:
  "\<exists>dl. map_strategies [strategy_add_default_labels]
            (setContext (CIFlowBot (pr_opened_event ''zhouzhuojie'' [''ciflow/default''])))
          = (Returned, (setContext (CIFlowBot (pr_opened_event ''zhouzhuojie'' [''ciflow/default''])))
                         \<lparr>dispatch_labels := Some dl\<rparr>)
        \<and> labelsToAdd [''ciflow/default''] (prefixed_labels dl) = []
        \<and> labelsToDelete [''ciflow/default''] (prefixed_labels dl) = []"
proof -
  let ?b = "setContext (CIFlowBot (pr_opened_event ''zhouzhuojie'' []))"
  let ?s = "setContext (CIFlowBot (pr_opened_event ''zhouzhuojie'' [''ciflow/default'']))"
  have h1: "dispatch_strategies ?b = [strategy_add_default_labels]"
    by (simp add: setContext_fields CIFlowBot_fields)
  have "fst (dispatch ?b) = Returned" by code_simp
  then have h2: "dispatch ?b = (Returned, snd (dispatch ?b))" by (metis prod.collapse)
  have h3: "dispatch_labels (snd (dispatch ?b)) = Some [''ciflow/default'']" by code_simp
  have h4: "dispatch_strategies ?s = [strategy_add_default_labels]"
    by (simp add: setContext_fields CIFlowBot_fields)
  have h5: "pr_labels ?s = Some [''ciflow/default'']" by code_simp
  have h6: "dispatch_labels ?s = Some [] \<or> dispatch_labels ?s = Some [''ciflow/default'']"
    by (simp add: setContext_fields CIFlowBot_fields)
  from second_run_no_changes [OF h1 h2 h3 h4 h5 h6] show ?thesis
    unfolding h4 by blast
qed

section \<open>The handler\<close>

text \<open>
  C5, as the code has it. When \<open>valid\<close> rejects the event, the handler returns normally
  and issues no platform call. Its first log record is the one for the started dispatch;
  it is the only record unless \<open>valid\<close> itself reported the rejection: an event of
  neither supported kind adds the error record for an unknown webhook event, and a comment
  whose author is the empty string adds the error record for an empty comment author.
\<close>

theorem rejected_event_trace:
  assumes "\<not> fst (valid (setContext (CIFlowBot c)))"
  shows "fst (webhookHandler c) = Returned
       \<and> api_calls (snd (webhookHandler c)) = []
       \<and> log_records (snd (webhookHandler c)) =
           (LogInfo, state_fields (setContext (CIFlowBot c)), ''ciflow dispatch started!'')
           # (if name c \<noteq> ''pull_request'' \<and> name c \<noteq> ''issue_comment''
              then [(LogError, CtxFields, ''Unknown webhook event'')]
              else if comment_author (setContext (CIFlowBot c)) = Some ''''
              then [(LogError, CtxFields, ''Empty comment author'')]
              else [])"
proof -
  have ev: "name c \<noteq> ''pull_request''"
    using assms
    by (auto simp add: valid_def setContext_fields CIFlowBot_def event_pull_request_def
        event_issue_comment_def split: if_splits)
  show ?thesis
    unfolding webhookHandler_def handler_rejected [OF assms]
    using ev
    by (simp add: valid_snd_fields setContext_fields event_pull_request_def event_issue_comment_def)
      (simp add: CIFlowBot_def)
qed

theorem rejected_event_trace_witness:
  "\<not> fst (valid (setContext (CIFlowBot (comment_event ''zhouzhuojie'' ''mallory'' ''@pytorchbot ciflow default'' []))))
   \<and> fst (webhookHandler (comment_event ''zhouzhuojie'' ''mallory'' ''@pytorchbot ciflow default'' [])) = Returned
   \<and> api_calls (snd (webhookHandler (comment_event ''zhouzhuojie'' ''mallory'' ''@pytorchbot ciflow default'' []))) = []
   \<and> length (log_records (snd (webhookHandler (comment_event ''zhouzhuojie'' ''mallory'' ''@pytorchbot ciflow default'' [])))) = 1"
proof -
  have h: "\<not> fst (valid (setContext (CIFlowBot (comment_event ''zhouzhuojie'' ''mallory'' ''@pytorchbot ciflow default'' []))))"
    by code_simp
  have ca: "comment_author (setContext (CIFlowBot (comment_event ''zhouzhuojie'' ''mallory'' ''@pytorchbot ciflow default'' [])))
      = Some ''mallory''"
    by code_simp
  show ?thesis
    using h rejected_event_trace [OF h, unfolded ca] by simp
qed

text \<open>
  C5 with "no additional log" fails: a comment whose author is the empty string is
  rejected, and the log then holds two records, the second one the error that \<open>valid\<close>
  wrote.
\<close>

theorem extra_log_counterexample:
  "\<not> fst (valid (setContext (CIFlowBot (comment_event ''zhouzhuojie'' '''' ''@pytorchbot ciflow'' []))))
   \<and> log_records (snd (webhookHandler (comment_event ''zhouzhuojie'' '''' ''@pytorchbot ciflow'' [])))
       = [(LogInfo, DispatchFields (Some []) [''strategy_add_default_labels''] ''issue_comment''
             (Some ''pytorch'') (Some []) (Some 7) (Some ''pytorch''), ''ciflow dispatch started!''),
          (LogError, CtxFields, ''Empty comment author'')]"
  by code_simp

text \<open>
  C3. A pull-request event whose author is a rollout user and whose pull request carries no
  label starting with \<^verbatim>\<open>ciflow/\<close>, in a payload that names the repository and its owner, on a
  platform that accepts the add-labels call: the dispatch labels end as the single label
  \<^verbatim>\<open>ciflow/default\<close>; the calls issued are one add-labels call with that label, no
  remove-label call, one add-assignees call for \<^verbatim>\<open>pytorchbot\<close> and, only once that call has
  resolved, one remove-assignees call for the same login. The handler returns normally exactly
  when both assignee calls resolve.
\<close>

theorem opened_by_rollout_user:
  assumes "name c = ''pull_request''"
    and "payload c = Some p" and "pull_request p = Some pr"
    and "issue_user pr = Some au" and "login au = Some a" and "a \<in> set rollout_users"
    and "labels pr = Some ls" and "\<forall>l\<in>set ls. \<not> prefix ''ciflow/'' (label_name l)"
    and "repository p = Some rp" and "repo_owner rp = Some ou"
    and "github c [] (AddLabels (login ou) (repo_name rp) (number pr) [''ciflow/default''])"
  shows "dispatch_labels (snd (webhookHandler c)) = Some [''ciflow/default'']
       \<and> api_calls (snd (webhookHandler c)) =
           [AddLabels (login ou) (repo_name rp) (number pr) [''ciflow/default''],
            AddAssignees (login ou) (repo_name rp) (number pr) [''pytorchbot'']]
           @ (if github c [AddLabels (login ou) (repo_name rp) (number pr) [''ciflow/default'']]
                    (AddAssignees (login ou) (repo_name rp) (number pr) [''pytorchbot''])
              then [RemoveAssignees (login ou) (repo_name rp) (number pr) [''pytorchbot'']]
              else [])
       \<and> (fst (webhookHandler c) = Returned \<longleftrightarrow>
            github c [AddLabels (login ou) (repo_name rp) (number pr) [''ciflow/default'']]
              (AddAssignees (login ou) (repo_name rp) (number pr) [''pytorchbot''])
            \<and> github c [AddLabels (login ou) (repo_name rp) (number pr) [''ciflow/default''],
                         AddAssignees (login ou) (repo_name rp) (number pr) [''pytorchbot'']]
                (RemoveAssignees (login ou) (repo_name rp) (number pr) [''pytorchbot'']))"
proof -
  have nl: "filter (\<lambda>l. startsWith (label_name l) pr_label_prefix) ls = []"
    using assms(8) by (simp add: startsWith_iff_prefix pr_label_prefix_def)
  obtain cm ca where s: "setContext (CIFlowBot c) =
     \<lparr> ctx = c, command = cm, command_args = ca,
       comment_author = Option.bind (Option.bind (comment p) comment_user) login,
       comment_body = Option.bind (comment p) body,
       dispatch_labels = Some [],
       dispatch_strategies = [strategy_add_default_labels],
       event = ''pull_request'', owner = login ou, pr_author = Some a,
       pr_labels = Some [],
       pr_number = number pr, repo = repo_name rp, log_records = [], api_calls = [] \<rparr>"
    using setContext_pull_request [OF assms(2,3,4,7,9,10)] assms(1,5) nl by auto
  have ro: "array_includes (map Some rollout_users) (Some a)"
    using assms(6) by (simp add: array_includes_iff)
  show ?thesis
    unfolding webhookHandler_def handler_def s
    using assms(2,9,10,11) ro
    by (simp add: Let_def valid_def event_pull_request_def event_issue_comment_def rollout_def
        dispatch_def dispatch_strategy_func_def setLabels_def prefixed_labels_def labelsToDelete_def
        labelsToAdd_def startsWith_def pr_label_prefix_def payload_repository_def await_call_def
        signal_github_def bot_assignee_def state_fields_def)
qed

theorem opened_by_rollout_user_witness:
  "name (pr_opened_event ''zhouzhuojie'' [''bug'']) = ''pull_request''
   \<and> ''zhouzhuojie'' \<in> set rollout_users
   \<and> dispatch_labels (snd (webhookHandler (pr_opened_event ''zhouzhuojie'' [''bug''])))
       = Some [''ciflow/default'']
   \<and> api_calls (snd (webhookHandler (pr_opened_event ''zhouzhuojie'' [''bug''])))
       = [AddLabels (Some ''pytorch'') (Some ''pytorch'') (Some 7) [''ciflow/default''],
          AddAssignees (Some ''pytorch'') (Some ''pytorch'') (Some 7) [''pytorchbot''],
          RemoveAssignees (Some ''pytorch'') (Some ''pytorch'') (Some 7) [''pytorchbot'']]
   \<and> fst (webhookHandler (pr_opened_event ''zhouzhuojie'' [''bug''])) = Returned"
  using opened_by_rollout_user [of "pr_opened_event ''zhouzhuojie'' [''bug'']"
      "\<lparr> pull_request = Some \<lparr> number = Some 7,
                                 issue_user = Some \<lparr> login = Some ''zhouzhuojie'' \<rparr>,
                                 labels = Some [\<lparr> label_name = ''bug'' \<rparr>] \<rparr>,
         issue = None, comment = None, repository = Some pytorch_repository \<rparr>"
      "\<lparr> number = Some 7, issue_user = Some \<lparr> login = Some ''zhouzhuojie'' \<rparr>,
         labels = Some [\<lparr> label_name = ''bug'' \<rparr>] \<rparr>"
      "\<lparr> login = Some ''zhouzhuojie'' \<rparr>" "''zhouzhuojie''" "[\<lparr> label_name = ''bug'' \<rparr>]"
      pytorch_repository "\<lparr> login = Some ''pytorch'' \<rparr>"]
  by (simp add: rollout_users_def)

end
